theory Spec2Isabelle
  imports Complex_Main
begin

section \<open>The clock value and the calendar of the date library\<close>

text \<open>
  The component keeps one clock value, \<open>currentTime\<close>, a UTC date-time of the Luxon
  library, and derives everything else from it. Only its calendar fields are read.
  JavaScript numbers are modelled as real numbers: the arithmetic of the program is
  taken exactly, without the rounding of IEEE doubles.
\<close>

record DateTime =
  year :: int
  month :: int
  day :: int
  hour :: int
  minute :: int
  second :: int
  millisecond :: int

text \<open>
  The date library is not part of the program. Its operations that the program calls
  (\<open>DateTime.utc(y, m, d, h, mi, s)\<close>, \<open>valueOf\<close>, \<open>diff\<close>, \<open>plus\<close>, \<open>toMillis\<close>) are
  modelled by their documented meaning on the proleptic Gregorian calendar in UTC:
  a date-time denotes a number of milliseconds since 1970-01-01T00:00:00Z.
\<close>

definition isLeapYear :: "int \<Rightarrow> bool" where
  "isLeapYear y = (y mod 4 = 0 \<and> (y mod 100 \<noteq> 0 \<or> y mod 400 = 0))"

definition daysInMonth :: "int \<Rightarrow> int \<Rightarrow> int" where
  "daysInMonth y m =
     (if m = 2 then (if isLeapYear y then 29 else 28)
      else if m = 4 \<or> m = 6 \<or> m = 9 \<or> m = 11 then 30 else 31)"

definition leapsThrough :: "int \<Rightarrow> int" where
  "leapsThrough y = y div 4 - y div 100 + y div 400"

definition daysBeforeYear :: "int \<Rightarrow> int" where
  "daysBeforeYear y = 365 * (y - 1970) + (leapsThrough (y - 1) - leapsThrough 1969)"

definition daysBeforeMonth :: "int \<Rightarrow> int \<Rightarrow> int" where
  "daysBeforeMonth y m = sum_list (map (daysInMonth y) [1..m - 1])"

definition toMillis :: "DateTime \<Rightarrow> int" where
  "toMillis t =
     (daysBeforeYear (year t) + daysBeforeMonth (year t) (month t) + (day t - 1)) * 86400000
     + hour t * 3600000 + minute t * 60000 + second t * 1000 + millisecond t"

definition utc :: "int \<Rightarrow> int \<Rightarrow> int \<Rightarrow> int \<Rightarrow> int \<Rightarrow> int \<Rightarrow> DateTime" where
  "utc y m d h mi s =
     \<lparr>year = y, month = m, day = d, hour = h, minute = mi, second = s, millisecond = 0\<rparr>"

text \<open>The values a clock reading can have: a real calendar date and time of day.\<close>

definition validDateTime :: "DateTime \<Rightarrow> bool" where
  "validDateTime t =
     (1 \<le> month t \<and> month t \<le> 12 \<and> 1 \<le> day t \<and> day t \<le> daysInMonth (year t) (month t)
      \<and> 0 \<le> hour t \<and> hour t \<le> 23 \<and> 0 \<le> minute t \<and> minute t \<le> 59
      \<and> 0 \<le> second t \<and> second t \<le> 59 \<and> 0 \<le> millisecond t \<and> millisecond t \<le> 999)"

text \<open>
  \<open>a.diff(b, ['days', 'hours', 'minutes', 'seconds'])\<close>: the time from \<open>b\<close> to \<open>a\<close>, split
  into whole days, whole hours, whole minutes and the remaining (fractional) seconds; all
  parts are negated when \<open>b\<close> is the later one. In UTC every day has 24 hours.
\<close>

record Duration =
  days :: real
  hours :: real
  minutes :: real
  seconds :: real

definition diffUnits :: "int \<Rightarrow> Duration" where
  "diffUnits ms =
     (let d = ms div 86400000;
          remainingMillis = ms - d * 86400000;
          h = remainingMillis div 3600000;
          mi = (remainingMillis - h * 3600000) div 60000;
          s = real_of_int (remainingMillis - h * 3600000 - mi * 60000) / 1000
      in \<lparr>days = real_of_int d, hours = real_of_int h, minutes = real_of_int mi, seconds = s\<rparr>)"

definition negate :: "Duration \<Rightarrow> Duration" where
  "negate d = \<lparr>days = - days d, hours = - hours d, minutes = - minutes d, seconds = - seconds d\<rparr>"

definition diff :: "DateTime \<Rightarrow> DateTime \<Rightarrow> Duration" where
  "diff this other =
     (let otherIsLater = toMillis other > toMillis this
      in if otherIsLater then negate (diffUnits (toMillis other - toMillis this))
         else diffUnits (toMillis this - toMillis other))"

definition durationToMillis :: "Duration \<Rightarrow> real" where
  "durationToMillis d =
     days d * 86400000 + hours d * 3600000 + minutes d * 60000 + seconds d * 1000"

text \<open>
  \<open>dt.plus({ hours: h })\<close>: the instant \<open>h\<close> hours after \<open>dt\<close>, given by its milliseconds
  since the epoch (\<open>h\<close> may be fractional).
\<close>

definition plusHours :: "DateTime \<Rightarrow> real \<Rightarrow> real" where
  "plusHours dt h = real_of_int (toMillis dt) + h * 3600000"

section \<open>The solar-midnight meridian\<close>

text \<open>
  The two loops that bring a longitude into the range from -180 to 180:
  \<^verbatim>\<open>while (lon < -180) lon += 360;  while (lon > 180) lon -= 360;\<close>
\<close>

function wrapUp :: "real \<Rightarrow> real" where
  "wrapUp lon = (if lon < -180 then wrapUp (lon + 360) else lon)"
  by pat_completeness auto
termination
proof (relation "measure (\<lambda>lon. nat \<lceil>(-180 - lon) / 360\<rceil>)")
  show "wf (measure (\<lambda>lon::real. nat \<lceil>(-180 - lon) / 360\<rceil>))" by simp
next
  fix lon :: real
  assume below: "lon < -180"
  have shift: "(-180 - (lon + 360)) / 360 = (-180 - lon) / 360 - 1"
    by (simp add: field_simps)
  from below have "0 < (-180 - lon) / 360" by simp
  then have pos: "0 < \<lceil>(-180 - lon) / 360\<rceil>" by linarith
  have "\<lceil>(-180 - (lon + 360)) / 360\<rceil> = \<lceil>(-180 - lon) / 360\<rceil> - 1"
    by (simp only: shift ceiling_diff_one)
  with pos have "nat \<lceil>(-180 - (lon + 360)) / 360\<rceil> < nat \<lceil>(-180 - lon) / 360\<rceil>"
    by linarith
  then show "(lon + 360, lon) \<in> measure (\<lambda>lon. nat \<lceil>(-180 - lon) / 360\<rceil>)"
    by (simp only: in_measure)
qed

function wrapDown :: "real \<Rightarrow> real" where
  "wrapDown lon = (if lon > 180 then wrapDown (lon - 360) else lon)"
  by pat_completeness auto
termination
proof (relation "measure (\<lambda>lon. nat \<lceil>(lon - 180) / 360\<rceil>)")
  show "wf (measure (\<lambda>lon::real. nat \<lceil>(lon - 180) / 360\<rceil>))" by simp
next
  fix lon :: real
  assume above: "lon > 180"
  have shift: "((lon - 360) - 180) / 360 = (lon - 180) / 360 - 1"
    by (simp add: field_simps)
  from above have "0 < (lon - 180) / 360" by simp
  then have pos: "0 < \<lceil>(lon - 180) / 360\<rceil>" by linarith
  have "\<lceil>((lon - 360) - 180) / 360\<rceil> = \<lceil>(lon - 180) / 360\<rceil> - 1"
    by (simp only: shift ceiling_diff_one)
  with pos have "nat \<lceil>((lon - 360) - 180) / 360\<rceil> < nat \<lceil>(lon - 180) / 360\<rceil>"
    by linarith
  then show "(lon - 360, lon) \<in> measure (\<lambda>lon. nat \<lceil>(lon - 180) / 360\<rceil>)"
    by (simp only: in_measure)
qed

declare wrapUp.simps [simp del] wrapDown.simps [simp del]

definition normalizeLon :: "real \<Rightarrow> real" where
  "normalizeLon lon = wrapDown (wrapUp lon)"

definition solarMidnightLon :: "DateTime \<Rightarrow> real" where
  "solarMidnightLon currentTime =
     (let totalHours = real_of_int (hour currentTime) + real_of_int (minute currentTime) / 60
                       + real_of_int (second currentTime) / 3600;
          lon = - totalHours * 15
      in normalizeLon lon)"

section \<open>The display year\<close>

definition displayYear :: "DateTime \<Rightarrow> int" where
  "displayYear currentTime =
     (if month currentTime = 12 then year currentTime + 1 else year currentTime)"


section \<open>The three phases of the wave\<close>

definition hourOfDay :: "DateTime \<Rightarrow> real" where
  "hourOfDay currentTime = real_of_int (hour currentTime) + real_of_int (minute currentTime) / 60"

definition isDec31 :: "DateTime \<Rightarrow> bool" where
  "isDec31 currentTime = (month currentTime = 12 \<and> day currentTime = 31)"

definition isJan1 :: "DateTime \<Rightarrow> bool" where
  "isJan1 currentTime = (month currentTime = 1 \<and> day currentTime = 1)"

definition inTransition :: "DateTime \<Rightarrow> bool" where
  "inTransition currentTime =
     ((isDec31 currentTime \<and> hourOfDay currentTime \<ge> 12)
      \<or> (isJan1 currentTime \<and> hourOfDay currentTime < 12))"

definition transitionComplete :: "DateTime \<Rightarrow> bool" where
  "transitionComplete currentTime =
     ((isJan1 currentTime \<and> hourOfDay currentTime \<ge> 12)
      \<or> (month currentTime = 1 \<and> day currentTime > 1)
      \<or> (month currentTime > 1 \<and> month currentTime < 12))"

definition beforeTransition :: "DateTime \<Rightarrow> bool" where
  "beforeTransition currentTime =
     ((isDec31 currentTime \<and> hourOfDay currentTime < 12)
      \<or> (month currentTime = 12 \<and> day currentTime < 31))"

text \<open>
  The phase of the specification is read off the three flags: \<open>phasesOf\<close> lists the
  phases whose flag is set, so the clock value is in exactly one phase when the list has
  exactly one element.
\<close>

datatype Phase = Before | During | Complete

definition phasesOf :: "DateTime \<Rightarrow> Phase list" where
  "phasesOf currentTime =
     (if beforeTransition currentTime then [Before] else [])
     @ (if inTransition currentTime then [During] else [])
     @ (if transitionComplete currentTime then [Complete] else [])"




text \<open>
  The time from the clock value to noon of December 31 of the clock's own year, in
  milliseconds.
\<close>

definition millisToWaveStart :: "DateTime \<Rightarrow> int" where
  "millisToWaveStart currentTime =
     toMillis (utc (year currentTime) 12 31 12 0 0) - toMillis currentTime"

section \<open>The countdown\<close>

record Countdown = Duration +
  totalMillis :: real

definition countdown :: "DateTime \<Rightarrow> Countdown option" where
  "countdown currentTime =
     (if \<not> beforeTransition currentTime then None
      else
        let waveStart = utc (year currentTime) 12 31 12 0 0;
            d = diff waveStart currentTime
        in if durationToMillis d \<le> 0 then None
           else Some \<lparr>days = real_of_int \<lfloor>days d\<rfloor>, hours = real_of_int \<lfloor>hours d\<rfloor>,
                       minutes = real_of_int \<lfloor>minutes d\<rfloor>, seconds = real_of_int \<lfloor>seconds d\<rfloor>,
                       totalMillis = durationToMillis d\<rparr>)"

section \<open>Membership in the new year\<close>

text \<open>
  \<open>isNewYear\<close> is a closure over the phase flags and the solar-midnight longitude;
  they are its first three arguments here. \<open>isNewYearAt\<close> is the closure the
  component builds from a clock value. \<open>normLon\<close> is the closure's local constant of
  that name, as a function of the queried longitude: one conditional expression, which
  moves the longitude by one turn at most.
\<close>

definition normLon :: "real \<Rightarrow> real" where
  "normLon lon = (if lon > 180 then lon - 360 else (if lon < -180 then lon + 360 else lon))"

definition isNewYear :: "bool \<Rightarrow> bool \<Rightarrow> real \<Rightarrow> real \<Rightarrow> bool" where
  "isNewYear inTrans transComplete solarMidnight lon =
     (if \<not> inTrans \<and> \<not> transComplete then False
      else if transComplete then True
      else
        let normMidnight = solarMidnight
        in if normMidnight \<le> 0 then normLon lon > normMidnight
           else normLon lon > normMidnight \<or> normLon lon < -180 + (180 - normMidnight))"

definition isNewYearAt :: "DateTime \<Rightarrow> real \<Rightarrow> bool" where
  "isNewYearAt currentTime lon =
     isNewYear (inTransition currentTime) (transitionComplete currentTime)
       (solarMidnightLon currentTime) lon"

section \<open>Coverage\<close>

definition coverage :: "DateTime \<Rightarrow> real" where
  "coverage currentTime =
     (if beforeTransition currentTime then 0
      else if transitionComplete currentTime then 100
      else
        let hr = real_of_int (hour currentTime) + real_of_int (minute currentTime) / 60
                 + real_of_int (second currentTime) / 3600
        in if month currentTime = 12 \<and> day currentTime = 31 then ((hr - 12) / 24) * 100
           else if month currentTime = 1 \<and> day currentTime = 1 then ((hr + 12) / 24) * 100
           else 0)"

section \<open>The time of solar midnight at a longitude\<close>

definition getSolarMidnightTime :: "DateTime \<Rightarrow> real \<Rightarrow> real" where
  "getSolarMidnightTime currentTime lon =
     (let hoursAfterWaveStart = (180 - lon) / 15;
          waveStart = utc (year currentTime) 12 31 12 0 0
      in plusHours waveStart hoursAfterWaveStart)"

section \<open>Normalisation: range, congruence, idempotence\<close>

lemma wrapUp_lower: "-180 \<le> wrapUp lon"
proof (induction lon rule: wrapUp.induct)
  case (1 lon)
  then show ?case by (subst wrapUp.simps) simp
qed

lemma wrapUp_congruent: "\<exists>k::int. wrapUp lon = lon + 360 * real_of_int k"
proof (induction lon rule: wrapUp.induct)
  case (1 lon)
  show ?case
  proof (cases "lon < -180")
    case True
    with 1 obtain k :: int where "wrapUp (lon + 360) = lon + 360 + 360 * real_of_int k"
      by blast
    with True have "wrapUp lon = lon + 360 * real_of_int (k + 1)"
      by (subst wrapUp.simps) simp
    then show ?thesis by blast
  next
    case False
    then have "wrapUp lon = lon + 360 * real_of_int 0"
      by (subst wrapUp.simps) simp
    then show ?thesis by blast
  qed
qed

lemma wrapDown_upper: "wrapDown lon \<le> 180"
proof (induction lon rule: wrapDown.induct)
  case (1 lon)
  then show ?case by (subst wrapDown.simps) simp
qed

lemma wrapDown_lower: "-180 \<le> lon \<Longrightarrow> -180 \<le> wrapDown lon"
proof (induction lon rule: wrapDown.induct)
  case (1 lon)
  then show ?case by (subst wrapDown.simps) simp
qed

lemma wrapDown_congruent: "\<exists>k::int. wrapDown lon = lon + 360 * real_of_int k"
proof (induction lon rule: wrapDown.induct)
  case (1 lon)
  show ?case
  proof (cases "lon > 180")
    case True
    with 1 obtain k :: int where "wrapDown (lon - 360) = lon - 360 + 360 * real_of_int k"
      by blast
    with True have "wrapDown lon = lon + 360 * real_of_int (k - 1)"
      by (subst wrapDown.simps) simp
    then show ?thesis by blast
  next
    case False
    then have "wrapDown lon = lon + 360 * real_of_int 0"
      by (subst wrapDown.simps) simp
    then show ?thesis by blast
  qed
qed

lemma normalizeLon_range: "-180 \<le> normalizeLon lon \<and> normalizeLon lon \<le> 180"
  unfolding normalizeLon_def
  using wrapDown_lower [OF wrapUp_lower] wrapDown_upper by blast

lemma normalizeLon_congruent: "\<exists>k::int. normalizeLon lon = lon + 360 * real_of_int k"
proof -
  obtain i :: int where up: "wrapUp lon = lon + 360 * real_of_int i"
    using wrapUp_congruent by blast
  obtain j :: int where "wrapDown (wrapUp lon) = wrapUp lon + 360 * real_of_int j"
    using wrapDown_congruent by blast
  with up have "normalizeLon lon = lon + 360 * real_of_int (i + j)"
    by (simp add: normalizeLon_def algebra_simps)
  then show ?thesis by blast
qed

lemma wrapUp_fixed: "-180 \<le> lon \<Longrightarrow> wrapUp lon = lon"
  by (subst wrapUp.simps) simp

lemma wrapDown_fixed: "lon \<le> 180 \<Longrightarrow> wrapDown lon = lon"
  by (subst wrapDown.simps) simp

lemma wrapUp_step: "lon < -180 \<Longrightarrow> wrapUp lon = wrapUp (lon + 360)"
  by (subst wrapUp.simps) simp

lemma wrapDown_step: "180 < lon \<Longrightarrow> wrapDown lon = wrapDown (lon - 360)"
  by (subst wrapDown.simps) simp

lemma normalizeLon_fixed: "-180 \<le> lon \<Longrightarrow> lon \<le> 180 \<Longrightarrow> normalizeLon lon = lon"
  by (simp add: normalizeLon_def wrapUp_fixed wrapDown_fixed)

text \<open>
  C8. For every longitude, \<open>normalizeLon\<close> returns a value between -180 and 180 that
  differs from its argument by a whole multiple of 360; it maps 190 to -170, -190 to
  170, 540 to 180 (of the two admitted values 180 and -180) and 0 to 0.
\<close>

theorem normalizeLon_range_congruent:
  "(-180 \<le> normalizeLon lon \<and> normalizeLon lon \<le> 180)
   \<and> (\<exists>k::int. normalizeLon lon = lon + 360 * real_of_int k)
   \<and> normalizeLon 190 = -170 \<and> normalizeLon (-190) = 170
   \<and> normalizeLon 540 = 180 \<and> normalizeLon 0 = 0"
proof -
  have known: "normalizeLon 190 = -170" "normalizeLon (-190) = 170" "normalizeLon 540 = 180"
    "normalizeLon 0 = 0"
    by (simp_all add: normalizeLon_def wrapUp_fixed wrapDown_fixed wrapUp_step wrapDown_step)
  show ?thesis
    using normalizeLon_range [of lon] normalizeLon_congruent [of lon] known by blast
qed

text \<open>
  C10. \<open>normalizeLon\<close> is idempotent: normalising a normalised longitude changes nothing.
\<close>

theorem normalizeLon_idempotent: "normalizeLon (normalizeLon x) = normalizeLon x"
  using normalizeLon_range [of x] by (simp add: normalizeLon_fixed)

section \<open>The solar-midnight longitude at given times of day\<close>

lemmas wrap_eval = normalizeLon_def wrapUp_fixed wrapDown_fixed wrapUp_step wrapDown_step

lemmas flag_defs = beforeTransition_def inTransition_def transitionComplete_def isDec31_def
  isJan1_def hourOfDay_def

text \<open>
  C6. The solar-midnight longitude of a clock value is the normalisation of
  \<open>-(hour + minute/60 + second/3600) * 15\<close>. On any date it is 0 at 00:00:00, -90 at
  06:00:00, -180 at 12:00:00 (of the two admitted values 180 and -180) and 90 at
  18:00:00.
\<close>

theorem solarMidnightLon_formula_and_values:
  "solarMidnightLon t =
     normalizeLon (- (real_of_int (hour t) + real_of_int (minute t) / 60
                      + real_of_int (second t) / 3600) * 15)
   \<and> solarMidnightLon \<lparr>year = y, month = mo, day = d, hour = 0, minute = 0, second = 0,
         millisecond = ms\<rparr> = 0
   \<and> solarMidnightLon \<lparr>year = y, month = mo, day = d, hour = 6, minute = 0, second = 0,
         millisecond = ms\<rparr> = -90
   \<and> solarMidnightLon \<lparr>year = y, month = mo, day = d, hour = 12, minute = 0, second = 0,
         millisecond = ms\<rparr> = -180
   \<and> solarMidnightLon \<lparr>year = y, month = mo, day = d, hour = 18, minute = 0, second = 0,
         millisecond = ms\<rparr> = 90"
  by (simp add: solarMidnightLon_def wrap_eval)

section \<open>The wave at 2024-12-31T15:00:00Z\<close>

text \<open>
  C2, as stated, fails: at 15:00:00 UTC the solar-midnight longitude is not -45, and
  longitude -44 is not yet in the new year.
\<close>

theorem solarMidnightLon_at_15h_is_not_minus_45:
  "solarMidnightLon (utc 2024 12 31 15 0 0) \<noteq> -45
   \<and> \<not> isNewYearAt (utc 2024 12 31 15 0 0) (-44)"
  by (simp add: solarMidnightLon_def wrap_eval utc_def flag_defs
      isNewYearAt_def isNewYear_def normLon_def)

text \<open>
  C2, amended. At 2024-12-31T15:00:00Z the solar-midnight longitude is 135 (three hours
  after the wave started at 180), the only phase is During, the coverage is exactly
  12.5, and neither longitude -44 nor longitude -46 is in the new year, while longitude
  136 is and longitude 134 is not.
\<close>

theorem wave_at_15h:
  "solarMidnightLon (utc 2024 12 31 15 0 0) = 135
   \<and> phasesOf (utc 2024 12 31 15 0 0) = [During]
   \<and> coverage (utc 2024 12 31 15 0 0) = 12.5
   \<and> \<not> isNewYearAt (utc 2024 12 31 15 0 0) (-44)
   \<and> \<not> isNewYearAt (utc 2024 12 31 15 0 0) (-46)
   \<and> isNewYearAt (utc 2024 12 31 15 0 0) 136
   \<and> \<not> isNewYearAt (utc 2024 12 31 15 0 0) 134"
  by (simp add: solarMidnightLon_def wrap_eval utc_def phasesOf_def flag_defs coverage_def
      isNewYearAt_def isNewYear_def normLon_def)

section \<open>Membership during the wave\<close>

text \<open>
  The membership test corrects its longitude by one turn at most; within one turn and a
  half of zero this is the full normalisation.
\<close>

lemma normalizeLon_once:
  assumes "-540 \<le> lon" "lon \<le> 540"
  shows "normalizeLon lon = normLon lon"
proof -
  consider "lon < -180" | "-180 \<le> lon \<and> lon \<le> 180" | "180 < lon" by linarith
  then show ?thesis
  proof cases
    case 1
    with assms show ?thesis by (simp add: wrap_eval normLon_def)
  next
    case 2
    then show ?thesis by (simp add: wrap_eval normLon_def)
  next
    case 3
    with assms show ?thesis by (simp add: wrap_eval normLon_def)
  qed
qed

text \<open>
  Where the test agrees with the single comparison: on every longitude from -540 to 540
  when the midnight line is not in the eastern hemisphere, and, when it is, on the
  longitudes whose normalisation is not west of the mirror image of the line.
\<close>

lemma isNewYear_during_agrees:
  assumes "-540 \<le> lon" "lon \<le> 540" and "m \<le> 0 \<or> - m \<le> normalizeLon lon"
  shows "isNewYear True False m lon = (normalizeLon lon > m)"
  using assms by (auto simp: isNewYear_def normalizeLon_once)

text \<open>
  Where it does not: with the midnight line in the eastern hemisphere, the eastern branch
  returns a second disjunct, so on the longitudes from -180 to 180 the test differs from
  the single comparison exactly on those west of the mirror image of the line.
\<close>

lemma isNewYear_during_east_differs:
  assumes "0 < m" and "-180 \<le> lon" "lon \<le> 180"
  shows "(isNewYear True False m lon \<noteq> (normalizeLon lon > m)) = (lon < - m)"
  using assms by (auto simp: isNewYear_def normLon_def normalizeLon_fixed)

text \<open>
  C1. The single comparison is not what the code does in the eastern hemisphere. On
  2024-12-31T14:00:00Z, two hours into the wave, the only phase is During and the
  midnight line is at 150. Longitude -160 is already normalised and is not greater than
  150, yet the test reports it in the new year: the eastern branch returns
  \<open>normLon > normMidnight || normLon < -180 + (180 - normMidnight)\<close>, and -160 is less
  than -150. Longitude 160, east of the line, is in the new year under both.
\<close>

theorem isNewYear_east_branch_at_14h:
  "phasesOf (utc 2024 12 31 14 0 0) = [During]
   \<and> solarMidnightLon (utc 2024 12 31 14 0 0) = 150
   \<and> normalizeLon (-160) = -160
   \<and> \<not> normalizeLon (-160) > solarMidnightLon (utc 2024 12 31 14 0 0)
   \<and> isNewYearAt (utc 2024 12 31 14 0 0) (-160)
   \<and> isNewYear True False 150 (-160)
   \<and> isNewYearAt (utc 2024 12 31 14 0 0) 160"
  by (simp add: solarMidnightLon_def wrap_eval utc_def phasesOf_def flag_defs
      isNewYearAt_def isNewYear_def normLon_def)

lemma normLon_one_turn:
  fixes lon :: real and k :: int
  assumes a: "-540 \<le> lon" "lon \<le> 540"
    and b: "-540 \<le> lon + 360 * real_of_int k" "lon + 360 * real_of_int k \<le> 540"
    and c: "lon \<noteq> -540" "lon \<noteq> -180" "lon \<noteq> 180" "lon \<noteq> 540"
  shows "normLon (lon + 360 * real_of_int k) = normLon lon"
proof -
  obtain i :: int where i: "normLon lon = lon + 360 * real_of_int i"
  proof -
    have "normLon lon = lon + 360 * real_of_int (-1) \<or> normLon lon = lon + 360 * real_of_int 1
      \<or> normLon lon = lon + 360 * real_of_int 0"
      by (simp add: normLon_def)
    then show ?thesis using that by blast
  qed
  obtain j :: int
    where j: "normLon (lon + 360 * real_of_int k) = lon + 360 * real_of_int k + 360 * real_of_int j"
  proof -
    have "normLon (lon + 360 * real_of_int k) = lon + 360 * real_of_int k + 360 * real_of_int (-1)
      \<or> normLon (lon + 360 * real_of_int k) = lon + 360 * real_of_int k + 360 * real_of_int 1
      \<or> normLon (lon + 360 * real_of_int k) = lon + 360 * real_of_int k + 360 * real_of_int 0"
      by (simp add: normLon_def)
    then show ?thesis using that by blast
  qed
  have inner: "-180 < normLon lon" "normLon lon < 180"
    using a c by (auto simp: normLon_def)
  have outer: "-180 \<le> normLon (lon + 360 * real_of_int k)"
    "normLon (lon + 360 * real_of_int k) \<le> 180"
    using b by (auto simp: normLon_def)
  define n where "n = k + j - i"
  have d: "normLon (lon + 360 * real_of_int k) - normLon lon = 360 * real_of_int n"
    using i j by (simp add: n_def)
  from d inner outer have lo: "-360 < 360 * real_of_int n" by linarith
  from d inner outer have hi: "360 * real_of_int n < 360" by linarith
  from lo have "-1 < n" by simp
  moreover from hi have "n < 1" by simp
  ultimately have "n = 0" by linarith
  with d show ?thesis by simp
qed

text \<open>
  C5, as stated, fails. Longitude 550 is reduced to 190, not to -170, so with the
  midnight line at -30 it is in the new year while -170 is not. And the two ends of the
  range, 180 and -180, are congruent but are both left as they are, so they are told
  apart by a midnight line at 0.
\<close>

theorem isNewYear_not_periodic:
  "isNewYear True False (-30) 550 \<noteq> isNewYear True False (-30) (-170)
   \<and> isNewYear True False 0 180 \<noteq> isNewYear True False 0 (-180)"
  by (simp add: isNewYear_def normLon_def)

text \<open>
  C5, amended. During the transition the test corrects its longitude by one turn at
  most (minus 360 above 180, plus 360 below -180). So for a longitude and a whole number
  of turns such that both the longitude and the shifted longitude lie from -540 to 540,
  and the longitude is not an odd multiple of 180, the test gives the same answer on
  both, whatever the midnight line.
\<close>

theorem isNewYear_one_turn:
  fixes lon :: real and k :: int
  assumes "-540 \<le> lon" "lon \<le> 540"
    and "-540 \<le> lon + 360 * real_of_int k" "lon + 360 * real_of_int k \<le> 540"
    and "lon \<noteq> -540" "lon \<noteq> -180" "lon \<noteq> 180" "lon \<noteq> 540"
  shows "isNewYear True False m (lon + 360 * real_of_int k) = isNewYear True False m lon"
  using normLon_one_turn [OF assms] by (simp add: isNewYear_def)

theorem isNewYear_one_turn_witness:
  "(-540::real) \<le> -170 \<and> (-170::real) \<le> 540
   \<and> (-540::real) \<le> -170 + 360 * real_of_int 1 \<and> (-170::real) + 360 * real_of_int 1 \<le> 540
   \<and> (-170::real) \<noteq> -540 \<and> (-170::real) \<noteq> -180 \<and> (-170::real) \<noteq> 180 \<and> (-170::real) \<noteq> 540
   \<and> isNewYear True False (-30) 190 = isNewYear True False (-30) (-170)"
  using isNewYear_one_turn [of "-170" 1 "-30"] by simp

section \<open>Calendar arithmetic\<close>

lemma daysBeforeMonth_Jan: "daysBeforeMonth y 1 = 0"
  by (simp add: daysBeforeMonth_def)

lemma upto_1_11: "[1..11] = [1,2,3,4,5,6,7,8,9,10,11::int]"
  by code_simp

lemma daysBeforeMonth_Dec: "daysBeforeMonth y 12 = (if isLeapYear y then 335 else 334)"
  by (simp add: daysBeforeMonth_def daysInMonth_def upto_1_11)

lemma div_step:
  fixes y d :: int
  assumes "0 < d"
  shows "y div d - (y - 1) div d = (if y mod d = 0 then 1 else 0)"
proof (cases "y mod d = 0")
  case True
  have e: "y - 1 = d * (y div d - 1) + (d - 1)"
    using True mult_div_mod_eq [of d y] by (simp add: algebra_simps)
  have "(y - 1) div d = y div d - 1"
    by (rule int_div_pos_eq [OF e]) (use assms in simp_all)
  with True show ?thesis by simp
next
  case False
  then have "0 < y mod d" using assms pos_mod_sign [of d y] by linarith
  have e: "y - 1 = d * (y div d) + (y mod d - 1)"
    using mult_div_mod_eq [of d y] by (simp add: algebra_simps)
  have "y mod d < d" using assms by simp
  then have "(y - 1) div d = y div d"
    using \<open>0 < y mod d\<close> by (intro int_div_pos_eq [OF e]) simp_all
  with False show ?thesis by simp
qed

lemma mod_100_4: "(y::int) mod 100 = 0 \<Longrightarrow> y mod 4 = 0"
  using mod_mod_cancel [of 4 100 y] by simp

lemma mod_400_100: "(y::int) mod 400 = 0 \<Longrightarrow> y mod 100 = 0"
  using mod_mod_cancel [of 100 400 y] by simp

lemma leap_indicator:
  fixes a b c :: bool
  assumes "b \<Longrightarrow> a" "c \<Longrightarrow> b"
  shows "(if a then 1 else 0) - (if b then 1 else 0) + (if c then 1 else (0::int))
         = (if a \<and> (\<not> b \<or> c) then 1 else 0)"
proof (cases c)
  case True
  with assms have "a" "b" by simp_all
  with True show ?thesis by simp
next
  case False
  with assms(1) show ?thesis by (cases b) simp_all
qed

lemma regroup:
  fixes a b c :: int
  shows "(a - b + c) - (a' - b' + c') = (a - a') - (b - b') + (c - c')"
  by simp

lemma leapsThrough_step:
  "leapsThrough y - leapsThrough (y - 1) = (if isLeapYear y then 1 else 0)"
proof -
  have "leapsThrough y - leapsThrough (y - 1)
        = (y div 4 - (y - 1) div 4) - (y div 100 - (y - 1) div 100) + (y div 400 - (y - 1) div 400)"
    unfolding leapsThrough_def by (rule regroup)
  also have "\<dots> = (if y mod 4 = 0 then 1 else 0) - (if y mod 100 = 0 then 1 else 0)
                  + (if y mod 400 = 0 then 1 else 0)"
    by (simp add: div_step)
  also have "\<dots> = (if isLeapYear y then 1 else 0)"
    unfolding isLeapYear_def
    by (rule leap_indicator [OF mod_100_4 mod_400_100])
  finally show ?thesis .
qed

lemma daysBeforeYear_next:
  "daysBeforeYear (y + 1) = daysBeforeYear y + (if isLeapYear y then 366 else 365)"
  using leapsThrough_step [of y] by (simp add: daysBeforeYear_def split: if_splits)

lemma toMillis_waveStart:
  "toMillis (utc y 12 31 12 0 0) =
     (daysBeforeYear y + (if isLeapYear y then 365 else 364)) * 86400000 + 43200000"
  by (simp add: toMillis_def utc_def daysBeforeMonth_Dec)

lemma toMillis_newYear:
  "toMillis (utc (y + 1) 1 1 0 0 0) = toMillis (utc y 12 31 12 0 0) + 43200000"
  by (simp add: toMillis_waveStart) (simp add: toMillis_def utc_def daysBeforeMonth_Jan daysBeforeYear_next)

section \<open>The predicted time of solar midnight\<close>

text \<open>
  C3. The code anchors the predicted instant at December 31 of the clock's own calendar
  year. On 2025-01-01T06:00:00Z, while the wave of 2025 is under way and the display
  year is 2025, the predicted solar midnight of longitude 0 is 2026-01-01T00:00:00Z, a
  year after the instant 2025-01-01T00:00:00Z that the claim gives.
\<close>

theorem getSolarMidnightTime_on_January_1:
  "displayYear (utc 2025 1 1 6 0 0) = 2025
   \<and> getSolarMidnightTime (utc 2025 1 1 6 0 0) 0 = real_of_int (toMillis (utc 2026 1 1 0 0 0))
   \<and> getSolarMidnightTime (utc 2025 1 1 6 0 0) 0 \<noteq> real_of_int (toMillis (utc 2025 1 1 0 0 0))"
proof -
  have y: "year (utc 2025 1 1 6 0 0) = 2025" "month (utc 2025 1 1 6 0 0) = 1"
    by (simp_all add: utc_def)
  have a: "toMillis (utc 2026 1 1 0 0 0) = toMillis (utc 2025 12 31 12 0 0) + 43200000"
    using toMillis_newYear [of 2025] by simp
  have b: "toMillis (utc 2025 1 1 0 0 0) = toMillis (utc 2024 12 31 12 0 0) + 43200000"
    using toMillis_newYear [of 2024] by simp
  have c: "toMillis (utc 2025 12 31 12 0 0) = toMillis (utc 2024 12 31 12 0 0) + 31536000000"
    using daysBeforeYear_next [of 2024] by (simp add: toMillis_waveStart isLeapYear_def)
  show ?thesis
    by (simp add: displayYear_def getSolarMidnightTime_def plusHours_def y a b c)
qed

text \<open>
  While the clock is in December the anchor is December 31 of the display year minus
  one, and the three instants the specification lists for 2025 come out.
\<close>

lemma getSolarMidnightTime_in_December:
  "month t = 12 \<Longrightarrow>
   getSolarMidnightTime t lon
     = plusHours (utc (displayYear t - 1) 12 31 12 0 0) ((180 - lon) / 15)"
  by (simp add: getSolarMidnightTime_def displayYear_def)

lemma getSolarMidnightTime_in_December_2024:
  "month t = 12 \<Longrightarrow> year t = 2024 \<Longrightarrow>
   getSolarMidnightTime t 180 = real_of_int (toMillis (utc 2024 12 31 12 0 0))
   \<and> getSolarMidnightTime t 0 = real_of_int (toMillis (utc 2025 1 1 0 0 0))
   \<and> getSolarMidnightTime t (-180) = real_of_int (toMillis (utc 2025 1 1 12 0 0))"
  using toMillis_newYear [of 2024]
  by (simp add: getSolarMidnightTime_def plusHours_def) (simp add: toMillis_def utc_def)

section \<open>One phase at a time, coverage between 0 and 100\<close>

lemma hourOfDay_ge_12: "validDateTime t \<Longrightarrow> (12 \<le> hourOfDay t) = (12 \<le> hour t)"
proof -
  assume v: "validDateTime t"
  then have m: "0 \<le> real_of_int (minute t)" "real_of_int (minute t) \<le> 59"
    by (simp_all add: validDateTime_def)
  show ?thesis
  proof (cases "12 \<le> hour t")
    case True
    then have "12 \<le> real_of_int (hour t)" by simp
    with m True show ?thesis by (simp add: hourOfDay_def)
  next
    case False
    then have "hour t \<le> 11" by simp
    then have "real_of_int (hour t) \<le> 11" by simp
    with m False show ?thesis by (simp add: hourOfDay_def)
  qed
qed

lemma hourOfDay_less_12: "validDateTime t \<Longrightarrow> (hourOfDay t < 12) = (hour t < 12)"
  using hourOfDay_ge_12 [of t] by (simp add: not_le [symmetric])

lemma daysInMonth_le_31: "daysInMonth y m \<le> 31"
  by (simp add: daysInMonth_def)

lemma phases_exactly_one:
  assumes v: "validDateTime t"
  shows "\<exists>p. phasesOf t = [p]"
proof -
  from v have mo: "1 \<le> month t" "month t \<le> 12" and d: "1 \<le> day t" "day t \<le> 31"
    using daysInMonth_le_31 [of "year t" "month t"] by (simp_all add: validDateTime_def)
  consider (dec) "month t = 12" | (jan) "month t = 1" | (mid) "1 < month t \<and> month t < 12"
    using mo by linarith
  then show ?thesis
  proof cases
    case dec
    show ?thesis
    proof (cases "day t = 31")
      case True
      with dec show ?thesis
        by (cases "hourOfDay t < 12") (simp_all add: phasesOf_def flag_defs)
    next
      case False
      with d have "day t < 31" by simp
      with dec show ?thesis by (simp add: phasesOf_def flag_defs)
    qed
  next
    case jan
    show ?thesis
    proof (cases "day t = 1")
      case True
      with jan show ?thesis
        by (cases "hourOfDay t < 12") (simp_all add: phasesOf_def flag_defs)
    next
      case False
      with d have "1 < day t" by simp
      with jan show ?thesis by (simp add: phasesOf_def flag_defs)
    qed
  next
    case mid
    then show ?thesis by (simp add: phasesOf_def flag_defs)
  qed
qed

lemma totalHours_bounds:
  assumes v: "validDateTime t"
  shows "real_of_int (hour t) \<le> real_of_int (hour t) + real_of_int (minute t) / 60
           + real_of_int (second t) / 3600"
    and "real_of_int (hour t) + real_of_int (minute t) / 60 + real_of_int (second t) / 3600
           < real_of_int (hour t) + 1"
proof -
  from v have m: "0 \<le> real_of_int (minute t)" "real_of_int (minute t) \<le> 59"
    and s: "0 \<le> real_of_int (second t)" "real_of_int (second t) \<le> 59"
    by (simp_all add: validDateTime_def)
  from m s show "real_of_int (hour t) \<le> real_of_int (hour t) + real_of_int (minute t) / 60
           + real_of_int (second t) / 3600" by simp
  from m s show "real_of_int (hour t) + real_of_int (minute t) / 60 + real_of_int (second t) / 3600
           < real_of_int (hour t) + 1" by simp
qed

lemma coverage_range:
  assumes v: "validDateTime t"
  shows "0 \<le> coverage t \<and> coverage t \<le> 100"
proof -
  define hr where "hr = real_of_int (hour t) + real_of_int (minute t) / 60
                        + real_of_int (second t) / 3600"
  have lo: "real_of_int (hour t) \<le> hr" and hi: "hr < real_of_int (hour t) + 1"
    using totalHours_bounds [OF v] by (simp_all add: hr_def)
  from v have h23: "real_of_int (hour t) \<le> 23" and h0: "0 \<le> real_of_int (hour t)"
    by (simp_all add: validDateTime_def)
  have cov: "coverage t =
     (if beforeTransition t then 0 else if transitionComplete t then 100
      else if month t = 12 \<and> day t = 31 then ((hr - 12) / 24) * 100
      else if month t = 1 \<and> day t = 1 then ((hr + 12) / 24) * 100 else 0)"
    by (simp add: coverage_def hr_def Let_def)
  show ?thesis
  proof (cases "beforeTransition t \<or> transitionComplete t")
    case True
    then show ?thesis by (auto simp: cov)
  next
    case False
    show ?thesis
    proof (cases "month t = 12 \<and> day t = 31")
      case True
      with False have "\<not> hourOfDay t < 12" by (simp add: flag_defs)
      then have "12 \<le> hour t" using hourOfDay_less_12 [OF v] by simp
      then have "12 \<le> real_of_int (hour t)" by simp
      with lo hi h23 have "12 \<le> hr" "hr \<le> 36" by linarith+
      then have "0 \<le> ((hr - 12) / 24) * 100 \<and> ((hr - 12) / 24) * 100 \<le> 100" by simp
      with False True show ?thesis by (simp add: cov)
    next
      case notDec: False
      show ?thesis
      proof (cases "month t = 1 \<and> day t = 1")
        case True
        with False have "\<not> 12 \<le> hourOfDay t" by (simp add: flag_defs)
        then have "hour t \<le> 11" using hourOfDay_ge_12 [OF v] by simp
        then have "real_of_int (hour t) \<le> 11" by simp
        with lo hi h0 have "0 \<le> hr" "hr \<le> 12" by linarith+
        then have "0 \<le> ((hr + 12) / 24) * 100 \<and> ((hr + 12) / 24) * 100 \<le> 100" by simp
        with False notDec True show ?thesis by (simp add: cov)
      next
        case False
        with \<open>\<not> (beforeTransition t \<or> transitionComplete t)\<close> notDec show ?thesis
          by (auto simp: cov)
      qed
    qed
  qed
qed

text \<open>
  C9. Every clock value that is a calendar date and time of day has exactly one of the
  three phase flags set, and its coverage lies between 0 and 100 inclusive.
\<close>

theorem one_phase_and_coverage_range:
  "validDateTime t \<Longrightarrow> (\<exists>p. phasesOf t = [p]) \<and> 0 \<le> coverage t \<and> coverage t \<le> 100"
  using phases_exactly_one [of t] coverage_range [of t] by blast

theorem one_phase_and_coverage_range_witness:
  "validDateTime (utc 2025 1 1 0 0 0)
   \<and> (\<exists>p. phasesOf (utc 2025 1 1 0 0 0) = [p])
   \<and> 0 \<le> coverage (utc 2025 1 1 0 0 0) \<and> coverage (utc 2025 1 1 0 0 0) \<le> 100"
proof -
  have v: "validDateTime (utc 2025 1 1 0 0 0)"
    by (simp add: validDateTime_def utc_def daysInMonth_def)
  show ?thesis
    using v one_phase_and_coverage_range [OF v] by blast
qed

section \<open>Coverage inside the window\<close>










section \<open>The countdown before the wave\<close>

lemma floor_thousandth: "\<lfloor>real_of_int a / 1000\<rfloor> = a div 1000"
  using floor_divide_of_int_eq [of a 1000, where ?'a = real] by simp

lemma take_out_units:
  fixes a n m :: int
  assumes "m dvd n"
  shows "a mod n - (a mod n div m) * m = a mod m"
proof -
  have "a mod n - (a mod n div m) * m = a mod n mod m"
    by (simp add: minus_div_mult_eq_mod)
  also have "\<dots> = a mod m" using assms by (rule mod_mod_cancel)
  finally show ?thesis .
qed

lemma diffUnits_parts:
  "diffUnits ms =
     \<lparr>days = real_of_int (ms div 86400000),
      hours = real_of_int (ms mod 86400000 div 3600000),
      minutes = real_of_int (ms mod 3600000 div 60000),
      seconds = real_of_int (ms mod 60000) / 1000\<rparr>"
proof -
  define r where "r = ms - (ms div 86400000) * 86400000"
  define h where "h = r div 3600000"
  define mi where "mi = (r - h * 3600000) div 60000"
  have r: "r = ms mod 86400000" by (simp add: r_def minus_div_mult_eq_mod)
  have rh: "r - h * 3600000 = ms mod 3600000"
    unfolding r h_def by (rule take_out_units) simp
  have rm: "r - h * 3600000 - mi * 60000 = ms mod 60000"
    unfolding mi_def rh by (rule take_out_units) simp
  have h': "h = ms mod 86400000 div 3600000" by (simp only: h_def r)
  have mi': "mi = ms mod 3600000 div 60000" by (simp only: mi_def rh)
  have "diffUnits ms = \<lparr>days = real_of_int (ms div 86400000), hours = real_of_int h,
      minutes = real_of_int mi, seconds = real_of_int (r - h * 3600000 - mi * 60000) / 1000\<rparr>"
    by (simp only: diffUnits_def Let_def r_def h_def mi_def)
  also have "\<dots> = \<lparr>days = real_of_int (ms div 86400000), hours = real_of_int h,
      minutes = real_of_int mi, seconds = real_of_int (ms mod 60000) / 1000\<rparr>"
    by (simp only: rm)
  also have "\<dots> = \<lparr>days = real_of_int (ms div 86400000),
      hours = real_of_int (ms mod 86400000 div 3600000),
      minutes = real_of_int (ms mod 3600000 div 60000),
      seconds = real_of_int (ms mod 60000) / 1000\<rparr>"
    by (simp only: mi' h')
  finally show ?thesis .
qed

lemma durationToMillis_diffUnits: "durationToMillis (diffUnits ms) = real_of_int ms"
proof -
  define d where "d = ms div 86400000"
  define h where "h = (ms - d * 86400000) div 3600000"
  define mi where "mi = (ms - d * 86400000 - h * 3600000) div 60000"
  have "diffUnits ms = \<lparr>days = real_of_int d, hours = real_of_int h, minutes = real_of_int mi,
      seconds = real_of_int (ms - d * 86400000 - h * 3600000 - mi * 60000) / 1000\<rparr>"
    by (simp only: diffUnits_def Let_def d_def h_def mi_def)
  then show ?thesis by (simp add: durationToMillis_def field_simps)
qed

lemma gap_positive_eve:
  fixes d h m s ms :: int
  assumes "0 \<le> h" "h \<le> 23" "0 \<le> m" "m \<le> 59" "0 \<le> s" "s \<le> 59"
    "0 \<le> ms" "ms \<le> 999" "d = 31" "h \<le> 11"
  shows "0 < (31 - d) * 86400000 + (12 - h) * 3600000 - m * 60000 - s * 1000 - ms"
  using assms by (simp add: algebra_simps)

lemma gap_positive_earlier:
  fixes d h m s ms :: int
  assumes "0 \<le> h" "h \<le> 23" "0 \<le> m" "m \<le> 59" "0 \<le> s" "s \<le> 59"
    "0 \<le> ms" "ms \<le> 999" "d < 31"
  shows "0 < (31 - d) * 86400000 + (12 - h) * 3600000 - m * 60000 - s * 1000 - ms"
  using assms by (simp add: algebra_simps)

lemma before_gap:
  assumes v: "validDateTime t" and b: "beforeTransition t"
  shows "0 < millisToWaveStart t"
proof -
  from v have r: "0 \<le> hour t" "hour t \<le> 23" "0 \<le> minute t" "minute t \<le> 59"
    "0 \<le> second t" "second t \<le> 59" "0 \<le> millisecond t" "millisecond t \<le> 999"
    by (simp_all add: validDateTime_def)
  from b have m: "month t = 12" by (auto simp: flag_defs)
  have gap: "millisToWaveStart t
       = (31 - day t) * 86400000 + (12 - hour t) * 3600000 - minute t * 60000
         - second t * 1000 - millisecond t"
    using m by (simp add: millisToWaveStart_def toMillis_waveStart)
      (simp add: toMillis_def daysBeforeMonth_Dec algebra_simps)
  from b m consider (eve) "day t = 31" "hourOfDay t < 12" | (earlier) "day t < 31"
    by (auto simp: flag_defs)
  then show ?thesis
  proof cases
    case eve
    then have h11: "hour t \<le> 11" using hourOfDay_less_12 [OF v] by simp
    show ?thesis unfolding gap by (rule gap_positive_eve [OF r eve(1) h11])
  next
    case earlier
    show ?thesis unfolding gap by (rule gap_positive_earlier [OF r earlier])
  qed
qed

lemma countdown_before:
  assumes v: "validDateTime t" and b: "beforeTransition t"
  shows "countdown t =
     Some \<lparr>days = real_of_int (millisToWaveStart t div 86400000),
           hours = real_of_int (millisToWaveStart t mod 86400000 div 3600000),
           minutes = real_of_int (millisToWaveStart t mod 3600000 div 60000),
           seconds = real_of_int (millisToWaveStart t mod 60000 div 1000),
           totalMillis = real_of_int (millisToWaveStart t)\<rparr>"
proof -
  define D where "D = millisToWaveStart t"
  have pos: "0 < D" using before_gap [OF v b] by (simp add: D_def)
  then have later: "\<not> toMillis t > toMillis (utc (year t) 12 31 12 0 0)"
    by (simp add: D_def millisToWaveStart_def)
  have d: "diff (utc (year t) 12 31 12 0 0) t = diffUnits D"
    using later by (simp add: diff_def D_def millisToWaveStart_def)
  have tot: "durationToMillis (diffUnits D) = real_of_int D"
    by (rule durationToMillis_diffUnits)
  have "countdown t =
     Some \<lparr>days = real_of_int \<lfloor>days (diffUnits D)\<rfloor>, hours = real_of_int \<lfloor>hours (diffUnits D)\<rfloor>,
           minutes = real_of_int \<lfloor>minutes (diffUnits D)\<rfloor>,
           seconds = real_of_int \<lfloor>seconds (diffUnits D)\<rfloor>, totalMillis = real_of_int D\<rparr>"
    using b pos by (simp add: countdown_def Let_def d tot)
  also have "\<dots> =
     Some \<lparr>days = real_of_int (D div 86400000), hours = real_of_int (D mod 86400000 div 3600000),
           minutes = real_of_int (D mod 3600000 div 60000),
           seconds = real_of_int (D mod 60000 div 1000), totalMillis = real_of_int D\<rparr>"
    by (simp add: diffUnits_parts floor_thousandth)
  finally show ?thesis by (simp only: D_def)
qed

lemma countdown_Dec30:
  "countdown (utc y 12 30 12 0 0)
     = Some \<lparr>days = 1, hours = 0, minutes = 0, seconds = 0, totalMillis = 86400000\<rparr>"
proof -
  have v: "validDateTime (utc y 12 30 12 0 0)"
    by (simp add: validDateTime_def utc_def daysInMonth_def)
  have b: "beforeTransition (utc y 12 30 12 0 0)"
    by (simp add: flag_defs utc_def)
  have g: "millisToWaveStart (utc y 12 30 12 0 0) = 86400000"
    by (simp add: millisToWaveStart_def toMillis_def utc_def)
  show ?thesis
    by (simp only: countdown_before [OF v b] g) simp
qed

text \<open>
  C7. Whenever the clock value is in the Before phase, the countdown is defined; its
  total is the time, positive, from the clock value to noon of December 31 of the
  clock's own year, and its days, hours, minutes and seconds are that time split into
  whole units. In any year, at December 30 12:00:00 it is exactly 1 day, 0 hours,
  0 minutes and 0 seconds.
\<close>

theorem countdown_to_wave_start:
  "(validDateTime t \<and> beforeTransition t \<longrightarrow>
      0 < millisToWaveStart t
      \<and> countdown t =
          Some \<lparr>days = real_of_int (millisToWaveStart t div 86400000),
                hours = real_of_int (millisToWaveStart t mod 86400000 div 3600000),
                minutes = real_of_int (millisToWaveStart t mod 3600000 div 60000),
                seconds = real_of_int (millisToWaveStart t mod 60000 div 1000),
                totalMillis = real_of_int (millisToWaveStart t)\<rparr>)
   \<and> countdown (utc y 12 30 12 0 0)
       = Some \<lparr>days = 1, hours = 0, minutes = 0, seconds = 0, totalMillis = 86400000\<rparr>"
  using before_gap [of t] countdown_before [of t] countdown_Dec30 [of y] by blast

theorem countdown_to_wave_start_witness:
  "validDateTime \<lparr>year = 2024, month = 12, day = 29, hour = 10, minute = 58, second = 57, millisecond = 500\<rparr>
   \<and> beforeTransition \<lparr>year = 2024, month = 12, day = 29, hour = 10, minute = 58, second = 57, millisecond = 500\<rparr>
   \<and> countdown \<lparr>year = 2024, month = 12, day = 29, hour = 10, minute = 58, second = 57, millisecond = 500\<rparr>
       = Some \<lparr>days = 2, hours = 1, minutes = 1, seconds = 2, totalMillis = 176462500\<rparr>"
proof -
  let ?t = "\<lparr>year = 2024, month = 12, day = 29, hour = 10, minute = 58, second = 57, millisecond = 500\<rparr>"
  have v: "validDateTime ?t" by (simp add: validDateTime_def daysInMonth_def)
  have b: "beforeTransition ?t" by (simp add: flag_defs)
  have g: "millisToWaveStart ?t = 176462500"
    by (simp add: millisToWaveStart_def toMillis_def utc_def)
  from countdown_to_wave_start [of ?t 2024] v b
  have "countdown ?t =
          Some \<lparr>days = real_of_int (millisToWaveStart ?t div 86400000),
                hours = real_of_int (millisToWaveStart ?t mod 86400000 div 3600000),
                minutes = real_of_int (millisToWaveStart ?t mod 3600000 div 60000),
                seconds = real_of_int (millisToWaveStart ?t mod 60000 div 1000),
                totalMillis = real_of_int (millisToWaveStart ?t)\<rparr>"
    by (simp only: simp_thms)
  then have "countdown ?t = Some \<lparr>days = 2, hours = 1, minutes = 1, seconds = 2, totalMillis = 176462500\<rparr>"
    by (simp only: g) simp
  with v b show ?thesis by (simp only: simp_thms)
qed

end
